theory Spec2Isabelle
  imports Complex_Main "HOL-Library.Multiset" "HOL-Library.Sublist" "HOL-Library.Word"
begin

section \<open>The embedding cache of index.ts\<close>

text \<open>
  The extension keeps, per notebook, a JSON file of embeddings, one entry per code cell,
  and one module-level variable \<open>embeddings\<close> that the ranking reads. The function
  \<open>createEmbeddings\<close> (index.ts, lines 358 to 421) recomputes the entries of the cells whose
  content hash changed and saves the new array when the set of hashes changed.
  \<open>getEmbeddings\<close> (lines 424 to 457) calls it every second without waiting for the
  call before, so calls overlap and share the variable.

  The text of a cell is a JavaScript string, a sequence of 16-bit code units; ids, hashes
  and error messages are \<open>string\<close>; an embedding vector is a list of reals (the source
  has floating-point numbers; the cache never computes with them).
\<close>

type_synonym utf16 = "16 word list"

type_synonym vector = "real list"

text \<open>The interface \<open>Embedding\<close>: the record stored in the JSON file.\<close>

record Embedding =
  id_emb :: string
  source_emb :: utf16
  hash_emb :: string
  embedding :: vector

text \<open>A cell of the shared notebook model, as far as \<open>createEmbeddings\<close> reads it.\<close>

record cell =
  id_cell :: string
  source_cell :: utf16

text \<open>
  \<open>String.prototype.trim\<close> removes the code units of the ECMAScript classes
  \<open>WhiteSpace\<close> and \<open>LineTerminator\<close> at both ends: tab, line feed, vertical tab, form
  feed, carriage return, space, U+00A0, U+1680, U+2000 to U+200A, U+2028, U+2029, U+202F,
  U+205F, U+3000 and U+FEFF.
\<close>

definition is_ws :: "16 word \<Rightarrow> bool" where
  "is_ws u = (u \<in> {0x9, 0xA, 0xB, 0xC, 0xD, 0x20, 0xA0, 0x1680, 0x2028, 0x2029, 0x202F,
                    0x205F, 0x3000, 0xFEFF} \<or> (0x2000 \<le> u \<and> u \<le> 0x200A))"

definition trim :: "utf16 \<Rightarrow> utf16" where
  "trim s = rev (dropWhile is_ws (rev (dropWhile is_ws s)))"

text \<open>
  \<open>Array.prototype.findIndex\<close>: the first index whose element satisfies the
  predicate; \<open>None\<close> stands for the result \<open>-1\<close>.
\<close>

fun findIndex :: "('a \<Rightarrow> bool) \<Rightarrow> 'a list \<Rightarrow> nat option" where
  "findIndex P [] = None"
| "findIndex P (x # xs) =
     (if P x then Some 0 else map_option Suc (findIndex P xs))"

text \<open>
  What one of the asynchronous per-cell tasks of \<open>createEmbeddings\<close> does: the
  entries it pushes on \<open>newEmbeddingsArray\<close> (none or one), the texts it sends to
  \<open>openaiEmbeddings\<close>, and the errors it reports with \<open>console.error\<close>.
\<close>

record task =
  pushed :: "Embedding list"
  requested :: "utf16 list"
  logged :: "string list"

text \<open>
  The body of the task (lines 369 to 408). \<open>calculateHash\<close> (./utils) and
  \<open>openaiEmbeddings\<close> (./prompt) are parameters: the hash is a function of the text,
  the provider either fails with an error (\<open>Inl\<close>, the exception caught by the
  \<open>try\<close>) or answers with a vector.

  The task reads the variable \<open>embeddings\<close> twice. Line 369 runs when the call
  begins, before any \<open>await\<close>: there the variable is the array the call was given,
  the argument \<open>embeddings\<close>. Lines 372 and 389 run after \<open>await calculateHash\<close>:
  there the variable is what the latest call to begin has assigned, the argument
  \<open>seen\<close>. When \<open>seen\<close> is too short for the index, \<open>embeddings[index].hash\<close>
  throws a \<open>TypeError\<close> outside the \<open>try\<close>: the task is rejected, pushes nothing
  and reports nothing (\<open>Promise.allSettled\<close> absorbs the rejection).
\<close>

definition cell_task ::
  "(utf16 \<Rightarrow> string) \<Rightarrow> (utf16 \<Rightarrow> string + vector) \<Rightarrow> Embedding list \<Rightarrow> Embedding list \<Rightarrow>
   cell \<Rightarrow> task" where
  "cell_task calculateHash openaiEmbeddings embeddings seen c =
     (case findIndex (\<lambda>e. id_emb e = id_cell c) embeddings of
        Some index \<Rightarrow>
          (let hash = calculateHash (source_cell c) in
           if index < length seen then
             if hash \<noteq> hash_emb (seen ! index) then
               (case openaiEmbeddings (source_cell c) of
                  Inr response \<Rightarrow>
                    \<lparr>pushed = [\<lparr>id_emb = id_cell c, source_emb = source_cell c,
                                hash_emb = hash, embedding = response\<rparr>],
                     requested = [source_cell c], logged = []\<rparr>
                | Inl error \<Rightarrow>
                    \<lparr>pushed = [], requested = [source_cell c], logged = [error]\<rparr>)
             else \<lparr>pushed = [seen ! index], requested = [], logged = []\<rparr>
           else \<lparr>pushed = [], requested = [], logged = []\<rparr>)
      | None \<Rightarrow>
          (case openaiEmbeddings (source_cell c) of
             Inr response \<Rightarrow>
               (let hash = calculateHash (source_cell c) in
                \<lparr>pushed = [\<lparr>id_emb = id_cell c, source_emb = source_cell c,
                            hash_emb = hash, embedding = response\<rparr>],
                 requested = [source_cell c], logged = []\<rparr>)
           | Inl error \<Rightarrow>
               \<lparr>pushed = [], requested = [source_cell c], logged = [error]\<rparr>))"

text \<open>
  Modelled from the spec: \<open>isSetsEqual\<close> of ./utils is not among the sources.
  Section 4.2 of the specification has the write skipped when the resulting fingerprint
  set equals the previously persisted one: the function is the equality of the two
  \<open>Set\<close> objects, each given by the list of hashes it is built from.
\<close>

definition isSetsEqual :: "string list \<Rightarrow> string list \<Rightarrow> bool" where
  "isSetsEqual a b = (set a = set b)"

text \<open>
  The result of a call of \<open>createEmbeddings\<close>: the array it built, the provider
  requests and error reports of its tasks (listed in the order of the cells; the
  theorems do not depend on their order), and the \<open>contents.save\<close> it performed, if
  any (path and content).
\<close>

record refresh =
  newEmbeddingsArray :: "Embedding list"
  requests :: "utf16 list"
  errors :: "string list"
  saved :: "(string \<times> Embedding list) option"

text \<open>
  \<open>createEmbeddings\<close>, from line 364 on; the assignment of line 363 is in
  \<open>getEmbeddings\<close> below, where the variable is. The tasks run concurrently and each
  pushes when its own awaits are over, so the order of \<open>newEmbeddingsArray\<close> is the
  order in which the tasks complete: the parameter \<open>completion\<close> is that reordering of
  the pushes (the theorems ask only that it is a permutation). The variable
  \<open>embeddings\<close> is shared with the calls that begin while this one runs: \<open>seen i\<close> is
  its value when the task of the i-th non-blank cell resumes (lines 372 and 389), and
  \<open>final\<close> its value when all tasks are settled (line 412).
\<close>

definition createEmbeddings ::
  "(utf16 \<Rightarrow> string) \<Rightarrow> (utf16 \<Rightarrow> string + vector) \<Rightarrow> (Embedding list \<Rightarrow> Embedding list) \<Rightarrow>
   (nat \<Rightarrow> Embedding list) \<Rightarrow> Embedding list \<Rightarrow> Embedding list \<Rightarrow> cell list \<Rightarrow> string \<Rightarrow>
   refresh" where
  "createEmbeddings calculateHash openaiEmbeddings completion seen final embeddingsJSON cells
     path =
     (let tasks = map (\<lambda>(i, c). cell_task calculateHash openaiEmbeddings embeddingsJSON (seen i) c)
                    (enumerate 0 (filter (\<lambda>c. trim (source_cell c) \<noteq> []) cells));
          newEmbeddingsArray = completion (concat (map pushed tasks));
          oldSet = map hash_emb final;
          newSet = map hash_emb newEmbeddingsArray
      in \<lparr>newEmbeddingsArray = newEmbeddingsArray,
          requests = concat (map requested tasks),
          errors = concat (map logged tasks),
          saved = (if \<not> isSetsEqual oldSet newSet then Some (path, newEmbeddingsArray)
                   else None)\<rparr>)"

text \<open>
  The page: the variable \<open>embeddings\<close> (\<open>None\<close> while it is undefined), the
  embeddings files by path, the calls of \<open>createEmbeddings\<close> that have begun and not
  ended, and the results of those that ended. A running call keeps the array and the
  cells it was given, its path, and the values that the variable has held since it
  began.
\<close>

record run =
  input :: "Embedding list"
  run_cells :: "cell list"
  run_path :: string
  held :: "Embedding list list"

record page =
  memory :: "Embedding list option"
  files :: "string \<Rightarrow> Embedding list option"
  running :: "run list"
  ended :: "refresh list"

text \<open>
  One round of \<open>getEmbeddings\<close> (lines 424 to 457) for the open notebook, with its
  cells and the path of its embeddings file, up to the point where
  \<open>createEmbeddings\<close> has assigned the variable (line 363) and started its tasks.
  When the file is missing an empty array is saved. The content of a file is the
  parsed array; reading the file and beginning the call are one step.
\<close>

definition getEmbeddings :: "cell list \<Rightarrow> string \<Rightarrow> page \<Rightarrow> page" where
  "getEmbeddings cells embeddingsPath st =
     (case files st embeddingsPath of
        None \<Rightarrow> st\<lparr>files := (files st)(embeddingsPath \<mapsto> [])\<rparr>
      | Some embJSON \<Rightarrow>
          st\<lparr>memory := Some embJSON,
             running := map (\<lambda>r. r\<lparr>held := held r @ [embJSON]\<rparr>) (running st) @
                        [\<lparr>input = embJSON, run_cells = cells, run_path = embeddingsPath,
                          held = [embJSON]\<rparr>]\<rparr>)"

text \<open>
  The k-th running call ends: its tasks have resumed, each seeing one of the values
  that the variable has held since the call began, and line 412 reads the variable as
  it is now. The call does not assign the variable again; it saves when the sets of
  hashes differ. (An index or an environment that cannot occur leaves the page as it
  is.)
\<close>

definition settle ::
  "(utf16 \<Rightarrow> string) \<Rightarrow> (utf16 \<Rightarrow> string + vector) \<Rightarrow> (Embedding list \<Rightarrow> Embedding list) \<Rightarrow>
   (nat \<Rightarrow> Embedding list) \<Rightarrow> nat \<Rightarrow> page \<Rightarrow> page" where
  "settle calculateHash openaiEmbeddings completion seen k st =
     (case memory st of
        None \<Rightarrow> st
      | Some final \<Rightarrow>
          if k < length (running st) \<and>
             (\<forall>i < length (filter (\<lambda>c. trim (source_cell c) \<noteq> []) (run_cells (running st ! k))).
                seen i \<in> set (held (running st ! k)))
          then
            (let r = running st ! k;
                 out = createEmbeddings calculateHash openaiEmbeddings completion seen final
                         (input r) (run_cells r) (run_path r)
             in st\<lparr>files := (case saved out of
                                Some (p, content) \<Rightarrow> (files st)(p \<mapsto> content)
                              | None \<Rightarrow> files st),
                    running := take k (running st) @ drop (Suc k) (running st),
                    ended := ended st @ [out]\<rparr>)
          else st)"

text \<open>
  A round alone: \<open>getEmbeddings\<close> begins a call on an existing file and the call ends
  before any other begins, so its tasks see the array it was given.
\<close>

definition refresh_alone ::
  "(utf16 \<Rightarrow> string) \<Rightarrow> (utf16 \<Rightarrow> string + vector) \<Rightarrow> (Embedding list \<Rightarrow> Embedding list) \<Rightarrow>
   cell list \<Rightarrow> string \<Rightarrow> page \<Rightarrow> page" where
  "refresh_alone calculateHash openaiEmbeddings completion cells path st =
     settle calculateHash openaiEmbeddings completion (\<lambda>i. the (files st path))
       (length (running st)) (getEmbeddings cells path st)"

text \<open>
  Names for what a task reads: the entry that \<open>findIndex\<close> gives for a cell, whether
  that entry has the hash of the cell source (the task then pushes it as it is), whether
  the cell passes the filter of \<open>createEmbeddings\<close>, and the entry that a task builds
  from the answer of the provider.
\<close>

definition cached :: "Embedding list \<Rightarrow> cell \<Rightarrow> Embedding option" where
  "cached es c = map_option (nth es) (findIndex (\<lambda>e. id_emb e = id_cell c) es)"

definition fresh :: "(utf16 \<Rightarrow> string) \<Rightarrow> Embedding list \<Rightarrow> cell \<Rightarrow> bool" where
  "fresh H es c = (case cached es c of Some e \<Rightarrow> hash_emb e = H (source_cell c) | None \<Rightarrow> False)"

definition nonempty :: "cell \<Rightarrow> bool" where
  "nonempty c = (trim (source_cell c) \<noteq> [])"

definition computed :: "(utf16 \<Rightarrow> string) \<Rightarrow> cell \<Rightarrow> vector \<Rightarrow> Embedding" where
  "computed H c v = \<lparr>id_emb = id_cell c, source_emb = source_cell c,
                     hash_emb = H (source_cell c), embedding = v\<rparr>"

section \<open>The similarity ranking\<close>

text \<open>
  \<open>getTopSimilarities\<close> of ./prompt is not among the sources; index.ts only calls it,
  with \<open>NUMBER_OF_SIMILAR_CELLS\<close> and the id of the edited cell (lines 298 and 738).
  The ranking is therefore \<open>topK\<close> of section 4.3 of the specification, with the score
  of section 3. Scores are reals.
\<close>

text \<open>
  Modelled from the spec: the dot product of the glossary entry on cosine similarity
  (\<open>getTopSimilarities\<close> is missing).
\<close>

definition dot :: "vector \<Rightarrow> vector \<Rightarrow> real" where
  "dot a b = sum_list (map2 (*) a b)"

text \<open>Modelled from the spec: the norm of that glossary entry (\<open>getTopSimilarities\<close> is missing).\<close>

definition norm_vec :: "vector \<Rightarrow> real" where
  "norm_vec a = sqrt (dot a a)"

text \<open>
  Modelled from the spec: the score of section 3 (\<open>getTopSimilarities\<close> is missing),
  the dot product divided by the product of the norms, 0 when a vector has norm 0.
\<close>

definition cosineSimilarity :: "vector \<Rightarrow> vector \<Rightarrow> real" where
  "cosineSimilarity a b =
     (if norm_vec a = 0 \<or> norm_vec b = 0 then 0 else dot a b / (norm_vec a * norm_vec b))"

text \<open>Modelled from the spec: an element of \<open>RankedResult\<close> of section 3.\<close>

record RankedResult =
  id_rank :: string
  score :: real
  source_rank :: utf16

text \<open>
  Modelled from the spec: the scored entries that \<open>topK\<close> of section 4.3 chooses among
  (\<open>getTopSimilarities\<close> is missing): every entry of the store but the one with the
  excluded id, in the order of the store.
\<close>

definition eligible :: "vector \<Rightarrow> Embedding list \<Rightarrow> string option \<Rightarrow> RankedResult list" where
  "eligible queryVector store excludeId =
     map (\<lambda>e. \<lparr>id_rank = id_emb e, score = cosineSimilarity queryVector (embedding e),
                source_rank = source_emb e\<rparr>)
       (filter (\<lambda>e. Some (id_emb e) \<noteq> excludeId) store)"

text \<open>
  Modelled from the spec: \<open>topK\<close> of section 4.3 (\<open>getTopSimilarities\<close> is missing):
  the K highest-scoring eligible entries, by a stable sort on descending score.
\<close>

definition topK :: "vector \<Rightarrow> Embedding list \<Rightarrow> nat \<Rightarrow> string option \<Rightarrow> RankedResult list" where
  "topK queryVector store K excludeId =
     take K (sort_key (\<lambda>r. - score r) (eligible queryVector store excludeId))"

section \<open>The streaming apply engine\<close>

text \<open>
  \<open>openAiStream\<close> of ./prompt and \<open>renderEditor\<close> of ./utils, which receive the
  chunks of the model and write them to the diff editor, are not among the sources;
  index.ts only starts the stream and removes the container (lines 329, 606, 719 and
  767). The session and its transitions are therefore those of sections 3 and 4.5 of
  the specification.
\<close>

text \<open>Modelled from the spec: the states of a \<open>StreamSession\<close> (\<open>openAiStream\<close> is missing).\<close>

datatype status = Active | Completed | Cancelled | Failed

text \<open>
  Modelled from the spec: the \<open>StreamSession\<close> of section 3 (\<open>openAiStream\<close> is
  missing). The cancel token is the state \<open>Cancelled\<close>; the field \<open>notified\<close> lists
  the buffers that the diff surface has been shown.
\<close>

record StreamSession =
  originalCode :: string
  proposedCode :: string
  status :: status
  notified :: "string list"

text \<open>
  Modelled from the spec: what reaches a session (\<open>openAiStream\<close> is missing): a chunk
  of the model, the end of the stream, an error of the provider, a cancellation.
\<close>

datatype signal = Chunk string | Exhausted | ProviderError | Cancel

text \<open>
  Modelled from the spec: the transition rules of section 4.5 (\<open>openAiStream\<close> is
  missing). A chunk received while the session is \<open>Active\<close> is appended to
  \<open>proposedCode\<close> and the diff surface is notified of the new buffer; the other
  signals move an \<open>Active\<close> session to its terminal state; a session that is not
  \<open>Active\<close> ignores every signal.
\<close>

fun apply_signal :: "StreamSession \<Rightarrow> signal \<Rightarrow> StreamSession" where
  "apply_signal s (Chunk text) =
     (if status s = Active
      then s\<lparr>proposedCode := proposedCode s @ text,
             notified := notified s @ [proposedCode s @ text]\<rparr>
      else s)"
| "apply_signal s Exhausted = (if status s = Active then s\<lparr>status := Completed\<rparr> else s)"
| "apply_signal s ProviderError = (if status s = Active then s\<lparr>status := Failed\<rparr> else s)"
| "apply_signal s Cancel = (if status s = Active then s\<lparr>status := Cancelled\<rparr> else s)"

text \<open>
  Modelled from the spec: a session receiving signals one after the other
  (\<open>openAiStream\<close> is missing).
\<close>

definition deliver :: "StreamSession \<Rightarrow> signal list \<Rightarrow> StreamSession" where
  "deliver s signals = foldl apply_signal s signals"

section \<open>The replace-code command and the fix-error flow\<close>

text \<open>
  The part of the page that the command \<open>pretzelai:replace-code\<close> (lines 590 to 794)
  and \<open>handleFixError\<close> (lines 274 to 354) read and change, for one active cell: the
  children of \<open>activeCell.node\<close> that the selectors of the source find, in document
  order, each with the number it got when it was created; the focus of the cell editor;
  the outputs of the cell model; the error values passed to \<open>console.error\<close>; the calls
  of \<open>openAiStream\<close>, each with the container it writes to and its prompt. Telemetry,
  styles and the inside of a container (input field, buttons, diff editor) are left out.
\<close>

datatype elem = ParentContainerAI nat | StatusP nat

text \<open>The selectors \<open>.pretzelParentContainerAI\<close> and \<open>p[style="margin-left: 70px;"]\<close>.\<close>

fun is_container :: "elem \<Rightarrow> bool" where
  "is_container (ParentContainerAI n) = True"
| "is_container (StatusP n) = False"

fun is_status :: "elem \<Rightarrow> bool" where
  "is_status (StatusP n) = True"
| "is_status (ParentContainerAI n) = False"

record ui =
  node :: "elem list"
  editorFocus :: bool
  code :: string
  outputs :: "string list"
  console :: "string list"
  streams :: "(nat \<times> string) list"
  created :: nat

text \<open>
  \<open>execute\<close>, the body under \<open>if (activeCell)\<close> (lines 598 to 792). When the cell
  has a container, the first one is removed with every status paragraph, the editor is
  focused and the command returns. Otherwise a status paragraph and a container with the
  input form are appended and the input field takes the focus.
\<close>

definition execute :: "ui \<Rightarrow> ui" where
  "execute u =
     (case find is_container (node u) of
        Some existingDiv \<Rightarrow>
          u\<lparr>node := filter (\<lambda>e. \<not> is_status e) (remove1 existingDiv (node u)),
            editorFocus := True\<rparr>
      | None \<Rightarrow>
          u\<lparr>node := node u @ [StatusP (created u), ParentContainerAI (Suc (created u))],
            created := created u + 2,
            editorFocus := False\<rparr>)"

text \<open>
  \<open>removeHandler\<close> of the container \<open>p\<close> (lines 714 to 727). \<open>removeChild\<close> throws
  when the container is not a child of the cell node.
\<close>

datatype dom_error = NotFoundError

definition removeHandler :: "nat \<Rightarrow> ui \<Rightarrow> dom_error + ui" where
  "removeHandler p u =
     (if ParentContainerAI p \<in> set (node u)
      then Inr (u\<lparr>node := filter (\<lambda>e. \<not> is_status e) (remove1 (ParentContainerAI p) (node u)),
                  editorFocus := True\<rparr>)
      else Inl NotFoundError)"

text \<open>
  \<open>handleSubmit\<close> of the container \<open>p\<close> (lines 731 to 791), with the code of the cell
  that its closure holds and the selected code that \<open>getSelectedCode\<close> returns.
  \<open>processTaggedVariables\<close> is given by the text it returns and
  \<open>generatePrompt\<close> (./prompt) is a parameter. The argument
  \<open>topSimilarities\<close> is the outcome of the awaited \<open>getTopSimilarities\<close>: \<open>Inl\<close>
  when the promise is rejected, which the \<open>catch\<close> answers by removing the container
  (when the container is no longer a child, \<open>removeChild\<close> throws inside the
  \<open>catch\<close> and nothing changes).
\<close>

definition handleSubmit ::
  "(string \<Rightarrow> string) \<Rightarrow> (string \<Rightarrow> string \<Rightarrow> string list \<Rightarrow> string \<Rightarrow> string option \<Rightarrow> string) \<Rightarrow>
   nat \<Rightarrow> string \<Rightarrow> string \<Rightarrow> string \<Rightarrow> string + string list \<Rightarrow> ui \<Rightarrow> ui" where
  "handleSubmit processTaggedVariables generatePrompt p oldCode extractedCode userInput
     topSimilarities u =
     (if userInput \<noteq> [] then
        (let userInput' = processTaggedVariables userInput in
         case topSimilarities of
           Inr similar \<Rightarrow>
             (let prompt = generatePrompt userInput' oldCode similar extractedCode None
              in u\<lparr>streams := streams u @ [(p, prompt)]\<rparr>)
         | Inl error \<Rightarrow>
             (if ParentContainerAI p \<in> set (node u)
              then u\<lparr>node := remove1 (ParentContainerAI p) (node u)\<rparr>
              else u))
      else u)"

text \<open>
  \<open>handleFixError\<close> up to the call of \<open>openAiStream\<close> (lines 274 to 346), for the
  traceback text that lines 276 to 290 produce. The status paragraph is appended before
  \<open>getTopSimilarities\<close> is awaited; its rejection is not caught, so nothing follows it.
  The container is appended without looking for an existing one.
\<close>

definition handleFixError ::
  "(string \<Rightarrow> string \<Rightarrow> string list \<Rightarrow> string \<Rightarrow> string option \<Rightarrow> string) \<Rightarrow>
   string \<Rightarrow> string + string list \<Rightarrow> ui \<Rightarrow> ui" where
  "handleFixError generatePrompt traceback topSimilarities u =
     (let originalCode = code u;
          u1 = u\<lparr>node := node u @ [StatusP (created u)], created := Suc (created u)\<rparr>
      in case topSimilarities of
           Inl error \<Rightarrow> u1
         | Inr similar \<Rightarrow>
             (let prompt = generatePrompt [] originalCode similar [] (Some traceback)
              in u1\<lparr>node := node u1 @ [ParentContainerAI (created u1)],
                    created := Suc (created u1),
                    streams := streams u1 @ [(created u1, prompt)]\<rparr>))"

text \<open>
  The handlers that \<open>handleFixError\<close> attaches to the promise of \<open>openAiStream\<close>
  (lines 347 to 353): \<open>then\<close> clears the outputs of the cell, \<open>catch\<close> reports the
  error.
\<close>

datatype settled = Fulfilled | Rejected string

fun openAiStream_settled :: "settled \<Rightarrow> ui \<Rightarrow> ui" where
  "openAiStream_settled Fulfilled u = u\<lparr>outputs := []\<rparr>"
| "openAiStream_settled (Rejected error) u = u\<lparr>console := console u @ [error]\<rparr>"

text \<open>
  The user's actions of the replace-code interaction on the cell, and their effect: the
  shortcut or the Ask AI button runs \<open>execute\<close>; a click on Remove runs
  \<open>removeHandler\<close> (an exception leaves the page as it is); a submit runs
  \<open>handleSubmit\<close>.
\<close>

datatype action =
  Command
  | ClickRemove nat
  | Submit nat string string string "string + string list"

fun act ::
  "(string \<Rightarrow> string) \<Rightarrow> (string \<Rightarrow> string \<Rightarrow> string list \<Rightarrow> string \<Rightarrow> string option \<Rightarrow> string) \<Rightarrow>
   ui \<Rightarrow> action \<Rightarrow> ui" where
  "act ptv gp u Command = execute u"
| "act ptv gp u (ClickRemove p) = (case removeHandler p u of Inr u' \<Rightarrow> u' | Inl e \<Rightarrow> u)"
| "act ptv gp u (Submit p oldCode extractedCode userInput topSimilarities) =
     handleSubmit ptv gp p oldCode extractedCode userInput topSimilarities u"

text \<open>
  The sessions on the cell: the containers in the cell node for which \<open>openAiStream\<close>
  has been called.
\<close>

definition sessions :: "ui \<Rightarrow> elem list" where
  "sessions u =
     filter (\<lambda>e. case e of ParentContainerAI p \<Rightarrow> p \<in> fst ` set (streams u) | StatusP n \<Rightarrow> False)
       (node u)"

section \<open>Sample parameters\<close>

text \<open>
  Stand-ins for the parameters in the closed examples: the texts x, y and z, and a text
  that is a single U+00A0; a hash; a provider that is down, one that answers, one that
  fails on the text y; and a prompt built from the instruction, the code and the
  context; a page without files and an environment in which every task sees the empty
  array. The completion order and \<open>processTaggedVariables\<close> are the identity there.
\<close>

definition text_x :: utf16 where
  "text_x = [0x78]"

definition text_y :: utf16 where
  "text_y = [0x79]"

definition text_z :: utf16 where
  "text_z = [0x7A]"

definition text_nbsp :: utf16 where
  "text_nbsp = [0xA0]"

definition sample_hash :: "utf16 \<Rightarrow> string" where
  "sample_hash t = (if t = [0x78] then ''hx'' else if t = [0x79] then ''hy'' else ''hz'')"

definition provider_down :: "utf16 \<Rightarrow> string + vector" where
  "provider_down t = Inl ''unavailable''"

definition provider_up :: "utf16 \<Rightarrow> string + vector" where
  "provider_up t = Inr [1]"

definition provider_flaky :: "utf16 \<Rightarrow> string + vector" where
  "provider_flaky t = (if t = [0x79] then Inl ''unavailable'' else Inr [1])"

definition sample_prompt :: "string \<Rightarrow> string \<Rightarrow> string list \<Rightarrow> string \<Rightarrow> string option \<Rightarrow> string" where
  "sample_prompt instruction oldCode similar selected traceback =
     instruction @ oldCode @ concat similar"

definition no_files :: "string \<Rightarrow> Embedding list option" where
  "no_files p = None"

definition sees_empty :: "nat \<Rightarrow> Embedding list" where
  "sees_empty i = []"

section \<open>Facts about the cache\<close>

lemma findIndex_Some:
  "findIndex P xs = Some i \<Longrightarrow> i < length xs \<and> P (xs ! i) \<and> (\<forall>j<i. \<not> P (xs ! j))"
proof (induction xs arbitrary: i)
  case Nil
  then show ?case by simp
next
  case (Cons x xs)
  show ?case
  proof (cases "P x")
    case True
    with Cons.prems show ?thesis by simp
  next
    case False
    with Cons.prems obtain k where k: "findIndex P xs = Some k" and i: "i = Suc k"
      by auto
    from Cons.IH [OF k] have "k < length xs" "P (xs ! k)" "\<forall>j<k. \<not> P (xs ! j)"
      by simp_all
    with False i show ?thesis
      by (auto simp: nth_Cons split: nat.splits)
  qed
qed

lemma findIndex_None: "findIndex P xs = None \<longleftrightarrow> (\<forall>x\<in>set xs. \<not> P x)"
  by (induction xs) auto

lemma cell_task_pushed_id:
  "e \<in> set (pushed (cell_task H E es es c)) \<Longrightarrow> id_emb e = id_cell c"
  by (auto simp: cell_task_def Let_def dest: findIndex_Some
      split: option.splits sum.splits if_splits)

lemma tasks_alone: "map (\<lambda>(i, c). f c) (enumerate n xs) = map f xs"
  by (induction xs arbitrary: n) simp_all

lemma createEmbeddings_alone:
  "createEmbeddings H E completion (\<lambda>i. es) fin es cs p =
     (let tasks = map (cell_task H E es es) (filter (\<lambda>c. trim (source_cell c) \<noteq> []) cs);
          new = completion (concat (map pushed tasks))
      in \<lparr>newEmbeddingsArray = new,
          requests = concat (map requested tasks),
          errors = concat (map logged tasks),
          saved = (if \<not> isSetsEqual (map hash_emb fin) (map hash_emb new) then Some (p, new)
                   else None)\<rparr>)"
  by (simp add: createEmbeddings_def tasks_alone Let_def)


lemma set_newEmbeddingsArray:
  assumes "\<And>xs. mset (completion xs) = mset xs"
  shows "set (newEmbeddingsArray (createEmbeddings H E completion (\<lambda>i. es) fin es cs p)) =
         (\<Union>c\<in>{c \<in> set cs. trim (source_cell c) \<noteq> []}. set (pushed (cell_task H E es es c)))"
proof -
  have "set (completion xs) = set xs" for xs
    using assms [of xs] by (rule mset_eq_setD)
  then show ?thesis
    by (auto simp: createEmbeddings_alone Let_def)
qed

lemma cell_task_cases:
  "cell_task H E es es c =
     (if fresh H es c then \<lparr>pushed = [the (cached es c)], requested = [], logged = []\<rparr>
      else case E (source_cell c) of
             Inr v \<Rightarrow> \<lparr>pushed = [computed H c v], requested = [source_cell c], logged = []\<rparr>
           | Inl err \<Rightarrow> \<lparr>pushed = [], requested = [source_cell c], logged = [err]\<rparr>)"
  by (auto simp: cell_task_def fresh_def cached_def computed_def Let_def
      dest: findIndex_Some split: option.splits sum.splits)

lemma cached_Some: "cached es c = Some e \<Longrightarrow> e \<in> set es \<and> id_emb e = id_cell c"
  by (auto simp: cached_def dest!: findIndex_Some)

lemma cached_None: "cached es c = None \<longleftrightarrow> id_cell c \<notin> id_emb ` set es"
  by (force simp: cached_def findIndex_None)

lemma pushed_cases:
  "pushed (cell_task H E es es c) =
     (if fresh H es c then [the (cached es c)]
      else case E (source_cell c) of Inr v \<Rightarrow> [computed H c v] | Inl err \<Rightarrow> [])"
  by (simp add: cell_task_cases split: sum.splits)



lemma pushed_hash:
  "e \<in> set (pushed (cell_task H E es es c)) \<Longrightarrow> hash_emb e = H (source_cell c)"
  by (auto simp: pushed_cases fresh_def computed_def split: if_splits sum.splits option.splits)

lemma new_entry_of_cell:
  assumes perm: "\<And>xs. mset (completion xs) = mset xs"
    and dist: "distinct (map id_cell cs)"
    and c: "c \<in> set cs"
  shows "e \<in> set (newEmbeddingsArray (createEmbeddings H E completion (\<lambda>i. es) fin es cs p)) \<and>
           id_emb e = id_cell c \<longleftrightarrow>
         nonempty c \<and> e \<in> set (pushed (cell_task H E es es c))"
proof -
  have inj: "c' = c" if "c' \<in> set cs" "id_cell c' = id_cell c" for c'
    using dist c that by (meson distinct_map inj_onD)
  show ?thesis
  proof
    assume l: "e \<in> set (newEmbeddingsArray (createEmbeddings H E completion (\<lambda>i. es) fin es cs p)) \<and>
           id_emb e = id_cell c"
    then obtain c' where c': "c' \<in> set cs" "nonempty c'" "e \<in> set (pushed (cell_task H E es es c'))"
      by (auto simp: set_newEmbeddingsArray [OF perm] nonempty_def)
    then have "id_cell c' = id_cell c"
      using l cell_task_pushed_id by fastforce
    with c'(1) have "c' = c" by (rule inj)
    with c' show "nonempty c \<and> e \<in> set (pushed (cell_task H E es es c))" by simp
  next
    assume "nonempty c \<and> e \<in> set (pushed (cell_task H E es es c))"
    then show "e \<in> set (newEmbeddingsArray (createEmbeddings H E completion (\<lambda>i. es) fin es cs p)) \<and>
           id_emb e = id_cell c"
      using c cell_task_pushed_id [of e H E es c]
      by (auto simp: set_newEmbeddingsArray [OF perm] nonempty_def)
  qed
qed




lemma carried_in_new:
  assumes perm: "\<And>xs. mset (completion xs) = mset xs"
    and "c \<in> set cs" "nonempty c" "fresh H es c"
  shows "the (cached es c) \<in> set (newEmbeddingsArray (createEmbeddings H E completion (\<lambda>i. es) fin es cs p))"
  using assms(2-) by (auto simp: set_newEmbeddingsArray [OF perm] nonempty_def pushed_cases)






lemma pushed_ex:
  "(\<exists>e. e \<in> set (pushed (cell_task H E es es c))) \<longleftrightarrow>
   fresh H es c \<or> \<not> isl (E (source_cell c))"
  by (cases "E (source_cell c)") (simp_all add: pushed_cases)

lemma hashes_new:
  assumes perm: "\<And>xs. mset (completion xs) = mset xs"
  shows "set (map hash_emb (newEmbeddingsArray (createEmbeddings H E completion (\<lambda>i. es) fin es cs p))) =
         (\<lambda>c. H (source_cell c)) `
           {c \<in> set cs. nonempty c \<and> (fresh H es c \<or> \<not> isl (E (source_cell c)))}"
    (is "?L = ?R")
proof (intro set_eqI iffI)
  fix h assume "h \<in> ?L"
  then obtain e c where c: "c \<in> set cs" "nonempty c"
      and e: "e \<in> set (pushed (cell_task H E es es c))" and h: "h = hash_emb e"
    by (auto simp: set_newEmbeddingsArray [OF perm] nonempty_def)
  from e have "fresh H es c \<or> \<not> isl (E (source_cell c))"
    using pushed_ex by blast
  moreover have "h = H (source_cell c)"
    using e h by (simp add: pushed_hash)
  ultimately show "h \<in> ?R" using c by blast
next
  fix h assume "h \<in> ?R"
  then obtain c where c: "c \<in> set cs" "nonempty c"
      and k: "fresh H es c \<or> \<not> isl (E (source_cell c))" and h: "h = H (source_cell c)"
    by blast
  from k obtain e where e: "e \<in> set (pushed (cell_task H E es es c))"
    using pushed_ex by blast
  then have "hash_emb e = h" using h by (simp add: pushed_hash)
  moreover have "e \<in> set (newEmbeddingsArray (createEmbeddings H E completion (\<lambda>i. es) fin es cs p))"
    using c e by (auto simp: set_newEmbeddingsArray [OF perm] nonempty_def)
  ultimately show "h \<in> ?L" by force
qed

lemma fresh_in_new:
  assumes perm: "\<And>xs. mset (completion xs) = mset xs"
    and dist: "distinct (map id_cell cs)"
    and c: "c \<in> set cs" "nonempty c"
  shows "fresh H (newEmbeddingsArray (createEmbeddings H E completion (\<lambda>i. es) fin es cs p)) c \<longleftrightarrow>
         fresh H es c \<or> \<not> isl (E (source_cell c))"
    (is "fresh H ?new c \<longleftrightarrow> ?kept")
proof
  assume "fresh H ?new c"
  then obtain e where "cached ?new c = Some e"
    by (auto simp: fresh_def split: option.splits)
  then have "e \<in> set ?new \<and> id_emb e = id_cell c"
    by (rule cached_Some)
  then have "e \<in> set (pushed (cell_task H E es es c))"
    using new_entry_of_cell [OF perm dist c(1)] by blast
  then show ?kept
    using pushed_ex by blast
next
  assume ?kept
  then obtain e0 where e0: "e0 \<in> set (pushed (cell_task H E es es c))"
    using pushed_ex by blast
  then have "e0 \<in> set ?new \<and> id_emb e0 = id_cell c"
    using new_entry_of_cell [OF perm dist c(1)] c(2) by blast
  then have "id_cell c \<in> id_emb ` set ?new"
    by (metis imageI)
  then have "cached ?new c \<noteq> None"
    by (simp add: cached_None)
  then obtain e where e: "cached ?new c = Some e" by blast
  then have "e \<in> set ?new \<and> id_emb e = id_cell c"
    by (rule cached_Some)
  then have "e \<in> set (pushed (cell_task H E es es c))"
    using new_entry_of_cell [OF perm dist c(1)] by blast
  then have "hash_emb e = H (source_cell c)"
    by (rule pushed_hash)
  with e show "fresh H ?new c" by (simp add: fresh_def)
qed

lemma saved_iff:
  "saved (createEmbeddings H E completion (\<lambda>i. es) fin es cs p) \<noteq> None \<longleftrightarrow>
   set (map hash_emb fin) \<noteq>
     set (map hash_emb (newEmbeddingsArray (createEmbeddings H E completion (\<lambda>i. es) fin es cs p)))"
  by (simp add: createEmbeddings_alone Let_def isSetsEqual_def)

lemma saved_content:
  "saved (createEmbeddings H E completion (\<lambda>i. es) fin es cs p) = Some (q, content) \<Longrightarrow>
   content = newEmbeddingsArray (createEmbeddings H E completion (\<lambda>i. es) fin es cs p)"
  by (simp add: createEmbeddings_alone Let_def split: if_splits)

lemma saved_path:
  "saved (createEmbeddings H E completion seen fin es cs p) = Some (q, content) \<Longrightarrow>
   q = p \<and> content = newEmbeddingsArray (createEmbeddings H E completion seen fin es cs p)"
  by (simp add: createEmbeddings_def Let_def split: if_splits)

lemma saved_general:
  "saved (createEmbeddings H E completion seen fin es cs p) \<noteq> None \<longleftrightarrow>
   set (map hash_emb fin) \<noteq>
     set (map hash_emb (newEmbeddingsArray (createEmbeddings H E completion seen fin es cs p)))"
  by (simp add: createEmbeddings_def Let_def isSetsEqual_def)

lemma new_final:
  "newEmbeddingsArray (createEmbeddings H E completion seen fin es cs p) =
   newEmbeddingsArray (createEmbeddings H E completion seen fin' es cs p)"
  by (simp add: createEmbeddings_def Let_def)

lemma memory_getEmbeddings:
  "memory (getEmbeddings cells path st) =
     (case files st path of None \<Rightarrow> memory st | Some es \<Rightarrow> Some es)"
  by (simp add: getEmbeddings_def split: option.splits)

lemma memory_settle: "memory (settle H E completion seen k st) = memory st"
  by (simp add: settle_def Let_def split: option.splits)

lemma refresh_alone_eq:
  assumes "files st path = Some es"
    and "out = createEmbeddings H E completion (\<lambda>i. es) es es cells path"
  shows "memory (refresh_alone H E completion cells path st) = Some es"
    and "ended (refresh_alone H E completion cells path st) = ended st @ [out]"
    and "files (refresh_alone H E completion cells path st) =
           (if saved out = None then files st
            else (files st)(path \<mapsto> newEmbeddingsArray out))"
    and "running (refresh_alone H E completion cells path st) =
           map (\<lambda>r. r\<lparr>held := held r @ [es]\<rparr>) (running st)"
proof -
  let ?st1 = "getEmbeddings cells path st"
  let ?k = "length (running st)"
  have m: "memory ?st1 = Some es" and f: "files ?st1 = files st" and e: "ended ?st1 = ended st"
    and r: "running ?st1 = map (\<lambda>r. r\<lparr>held := held r @ [es]\<rparr>) (running st) @
          [\<lparr>input = es, run_cells = cells, run_path = path, held = [es]\<rparr>]"
    using assms(1) by (simp_all add: getEmbeddings_def)
  have k: "?k < length (running ?st1)"
    and nth: "running ?st1 ! ?k = \<lparr>input = es, run_cells = cells, run_path = path, held = [es]\<rparr>"
    and rest: "take ?k (running ?st1) @ drop (Suc ?k) (running ?st1) =
          map (\<lambda>r. r\<lparr>held := held r @ [es]\<rparr>) (running st)"
    by (simp_all add: r nth_append)
  have step: "refresh_alone H E completion cells path st =
      ?st1\<lparr>files := (case saved out of Some (p, content) \<Rightarrow> (files ?st1)(p \<mapsto> content)
                       | None \<Rightarrow> files ?st1),
            running := map (\<lambda>r. r\<lparr>held := held r @ [es]\<rparr>) (running st),
            ended := ended ?st1 @ [out]\<rparr>"
    unfolding refresh_alone_def settle_def
    using k nth rest by (simp add: m assms Let_def)
  show "memory (refresh_alone H E completion cells path st) = Some es"
    by (simp add: step m)
  show "ended (refresh_alone H E completion cells path st) = ended st @ [out]"
    by (simp add: step e)
  show "running (refresh_alone H E completion cells path st) =
           map (\<lambda>r. r\<lparr>held := held r @ [es]\<rparr>) (running st)"
    by (simp add: step)
  show "files (refresh_alone H E completion cells path st) =
           (if saved out = None then files st
            else (files st)(path \<mapsto> newEmbeddingsArray out))"
  proof (cases "saved out")
    case None
    then show ?thesis by (simp add: step f)
  next
    case (Some a)
    obtain q content where a: "a = (q, content)" by (cases a)
    with Some have "q = path \<and> content = newEmbeddingsArray out"
      unfolding assms(2) using saved_path by blast
    with Some a show ?thesis by (simp add: step f)
  qed
qed

lemma sample_texts:
  "trim text_x = text_x" "trim text_y = text_y" "trim text_z = text_z"
  "text_x \<noteq> []" "text_y \<noteq> []" "text_z \<noteq> []"
  "text_x \<noteq> text_y" "text_x \<noteq> text_z" "text_y \<noteq> text_x" "text_y \<noteq> text_z"
  "text_z \<noteq> text_x" "text_z \<noteq> text_y"
  by (simp_all add: trim_def is_ws_def text_x_def text_y_def text_z_def)

lemma sample_hashes:
  "sample_hash text_x = ''hx''" "sample_hash text_y = ''hy''" "sample_hash text_z = ''hz''"
  by (simp_all add: sample_hash_def text_x_def text_y_def text_z_def)

lemma sample_providers:
  "provider_up t = Inr [1]" "provider_down t = Inl ''unavailable''"
  "provider_flaky text_x = Inr [1]" "provider_flaky text_y = Inl ''unavailable''"
  "provider_flaky text_z = Inr [1]"
  by (simp_all add: provider_up_def provider_down_def provider_flaky_def text_x_def text_y_def
      text_z_def)

lemmas samples = sample_texts sample_hashes sample_providers no_files_def sees_empty_def

section \<open>Facts about the ranking\<close>

lemma sorted_desc_sort_key:
  "sorted_wrt (\<lambda>a b. score b \<le> score a) (sort_key (\<lambda>r. - score r) xs)"
proof -
  have "sorted (map (\<lambda>r. - score r) (sort_key (\<lambda>r. - score r) xs))"
    by (rule sorted_sort_key)
  then show ?thesis
    by (simp add: sorted_map)
qed

lemma sorted_wrt_take_drop:
  assumes "sorted_wrt R xs"
  shows "sorted_wrt R (take n xs) \<and> (\<forall>a\<in>set (take n xs). \<forall>b\<in>set (drop n xs). R a b)"
proof -
  have "sorted_wrt R (take n xs @ drop n xs)"
    using assms by simp
  then show ?thesis
    unfolding sorted_wrt_append by blast
qed

lemma filter_take_prefix: "prefix (filter P (take n xs)) (filter P xs)"
proof -
  have "filter P xs = filter P (take n xs) @ filter P (drop n xs)"
    by (metis append_take_drop_id filter_append)
  then show ?thesis
    by (simp add: prefix_def)
qed

lemma stable_desc_sort_key:
  "filter (\<lambda>r. score r = s) (sort_key (\<lambda>r. - score r) xs) = filter (\<lambda>r. score r = s) xs"
  using sort_key_stable [of "\<lambda>r. - score r" "- s" xs] by simp

lemma topK_length: "length (topK q store K ex) = min K (length (eligible q store ex))"
  by (simp add: topK_def min.commute)

lemma topK_sorted: "sorted_wrt (\<lambda>a b. score b \<le> score a) (topK q store K ex)"
  unfolding topK_def using sorted_wrt_take_drop [OF sorted_desc_sort_key] by blast

lemma topK_stable:
  "prefix (filter (\<lambda>r. score r = s) (topK q store K ex))
          (filter (\<lambda>r. score r = s) (eligible q store ex))"
  unfolding topK_def using filter_take_prefix [of "\<lambda>r. score r = s" K
      "sort_key (\<lambda>r. - score r) (eligible q store ex)"]
  by (simp add: stable_desc_sort_key)

lemma topK_mset: "mset (topK q store K ex) \<subseteq># mset (eligible q store ex)"
proof -
  let ?s = "sort_key (\<lambda>r. - score r) (eligible q store ex)"
  have "mset (take K ?s) + mset (drop K ?s) = mset (eligible q store ex)"
    by (metis append_take_drop_id mset_append mset_sort)
  then show ?thesis
    unfolding topK_def by (metis mset_subset_eq_add_left)
qed

lemma topK_all:
  "length (eligible q store ex) \<le> K \<Longrightarrow> mset (topK q store K ex) = mset (eligible q store ex)"
  by (simp add: topK_def)

lemma topK_highest:
  assumes "r \<in> set (topK q store K ex)"
    and "r' \<in># mset (eligible q store ex) - mset (topK q store K ex)"
  shows "score r' \<le> score r"
proof -
  let ?s = "sort_key (\<lambda>r. - score r) (eligible q store ex)"
  have "mset (take K ?s) + mset (drop K ?s) = mset (eligible q store ex)"
    by (metis append_take_drop_id mset_append mset_sort)
  then have "mset (eligible q store ex) - mset (topK q store K ex) = mset (drop K ?s)"
    unfolding topK_def by (metis add_diff_cancel_left')
  then have "r' \<in> set (drop K ?s)"
    using assms(2) by simp
  then show ?thesis
    using assms(1) sorted_wrt_take_drop [OF sorted_desc_sort_key, of K "eligible q store ex"]
    unfolding topK_def by blast
qed

lemma topK_excludes: "r \<in> set (topK q store K ex) \<Longrightarrow> Some (id_rank r) \<noteq> ex"
proof -
  assume "r \<in> set (topK q store K ex)"
  then have "r \<in> set (eligible q store ex)"
    unfolding topK_def by (metis in_set_takeD set_sort)
  then show ?thesis
    by (auto simp: eligible_def)
qed

lemma norm_unit_x: "norm_vec [1, 0] = 1" and norm_unit_y: "norm_vec [0, 1] = 1"
  by (simp_all add: norm_vec_def dot_def)

lemma cos_a: "cosineSimilarity [1, 0] [1, 0] = 1"
  by (simp add: cosineSimilarity_def norm_unit_x) (simp add: dot_def)

lemma cos_b: "cosineSimilarity [1, 0] [0, 1] = 0"
  by (simp add: cosineSimilarity_def norm_unit_x norm_unit_y) (simp add: dot_def)

lemma cos_c: "cosineSimilarity [1, 0] [9 / 10, 1 / 10] = (9 / 10) / sqrt (82 / 100)"
proof -
  have n: "norm_vec [9 / 10, 1 / 10] = sqrt (82 / 100)"
    by (simp add: norm_vec_def dot_def)
  have "sqrt (82 / 100) \<noteq> 0" by simp
  then show ?thesis
    by (simp add: cosineSimilarity_def norm_unit_x n) (simp add: dot_def)
qed

lemma cos_c_bounds: "0 < (9 / 10) / sqrt (82 / 100)" "(9 / 10) / sqrt (82 / 100) \<le> (1::real)"
proof -
  have "(9 / 10 :: real) \<le> sqrt (82 / 100)"
    by (rule real_le_rsqrt) (simp add: power2_eq_square)
  moreover have "0 < sqrt (82 / 100 :: real)" by simp
  ultimately show "(9 / 10) / sqrt (82 / 100) \<le> (1::real)"
    by (simp add: divide_le_eq)
  show "0 < (9 / 10) / sqrt (82 / 100 :: real)" by simp
qed

lemma topK_example:
  "map id_rank (topK [1, 0]
      [\<lparr>id_emb = ''a'', source_emb = text_x, hash_emb = ''ha'', embedding = [1, 0]\<rparr>,
       \<lparr>id_emb = ''b'', source_emb = text_y, hash_emb = ''hb'', embedding = [0, 1]\<rparr>,
       \<lparr>id_emb = ''c'', source_emb = text_z, hash_emb = ''hc'', embedding = [9 / 10, 1 / 10]\<rparr>]
      2 None) = [''a'', ''c'']"
  using cos_c_bounds
  by (simp add: topK_def eligible_def cos_a cos_b cos_c)

section \<open>Facts about the engine and the page\<close>

lemma inactive_fixed: "status s \<noteq> Active \<Longrightarrow> deliver s signals = s"
  unfolding deliver_def
proof (induction signals arbitrary: s)
  case Nil
  then show ?case by simp
next
  case (Cons x xs)
  then have "apply_signal s x = s" by (cases x) simp_all
  with Cons show ?case by simp
qed

lemma deliver_append: "deliver s (xs @ ys) = deliver (deliver s xs) ys"
  by (simp add: deliver_def)

lemma deliver_Cancel:
  "deliver s (Cancel # signals) = apply_signal s Cancel"
proof -
  have "status (apply_signal s Cancel) \<noteq> Active" by simp
  then have "deliver (apply_signal s Cancel) signals = apply_signal s Cancel"
    by (rule inactive_fixed)
  then show ?thesis by (simp add: deliver_def)
qed

lemma containers_drop_status:
  "filter is_container (filter (\<lambda>e. \<not> is_status e) xs) = filter is_container xs"
proof -
  have "is_container e \<and> \<not> is_status e \<longleftrightarrow> is_container e" for e
    by (cases e) simp_all
  then show ?thesis by (simp add: conj_commute)
qed

lemma containers_not_status:
  "filter (\<lambda>e. \<not> is_status e \<and> is_container e) xs = filter is_container xs"
  using containers_drop_status [of xs] by (simp add: conj_commute)

lemma containers_remove1:
  "x \<in> set xs \<Longrightarrow> is_container x \<Longrightarrow>
   Suc (length (filter is_container (remove1 x xs))) = length (filter is_container xs)"
  by (induction xs) auto

lemma containers_remove1_le:
  "length (filter is_container (remove1 x xs)) \<le> length (filter is_container xs)"
  by (induction xs) auto

lemma find_container_None: "find is_container xs = None \<longleftrightarrow> filter is_container xs = []"
  by (induction xs) auto

lemma find_container_Some:
  "find is_container xs = Some x \<Longrightarrow> x \<in> set xs \<and> is_container x"
  by (induction xs) (auto split: if_splits)

lemma execute_toggle:
  assumes "filter is_container (node u) \<noteq> []"
  shows "Suc (length (filter is_container (node (execute u)))) = length (filter is_container (node u))"
    and "filter is_status (node (execute u)) = []"
    and "streams (execute u) = streams u"
    and "created (execute u) = created u"
proof -
  from assms obtain x where x: "find is_container (node u) = Some x"
    by (cases "find is_container (node u)") (simp_all add: find_container_None)
  then have "x \<in> set (node u)" "is_container x"
    by (simp_all add: find_container_Some)
  then show "Suc (length (filter is_container (node (execute u)))) =
      length (filter is_container (node u))"
    using x by (simp add: execute_def containers_not_status containers_remove1)
  show "filter is_status (node (execute u)) = []"
    using x by (simp add: execute_def)
  show "streams (execute u) = streams u" "created (execute u) = created u"
    using x by (simp_all add: execute_def)
qed

lemma execute_open:
  assumes "filter is_container (node u) = []"
  shows "filter is_container (node (execute u)) = [ParentContainerAI (Suc (created u))]"
  using assms by (simp add: execute_def find_container_None [symmetric])

lemma act_containers:
  assumes "length (filter is_container (node u)) \<le> 1"
  shows "length (filter is_container (node (act ptv gp u a))) \<le> 1"
proof (cases a)
  case Command
  show ?thesis
  proof (cases "filter is_container (node u) = []")
    case True
    then show ?thesis using Command by (simp add: execute_open)
  next
    case False
    then show ?thesis using Command execute_toggle(1) [OF False] assms by simp
  qed
next
  case (ClickRemove p)
  have "length (filter is_container (remove1 (ParentContainerAI p) (node u))) \<le> 1"
    using containers_remove1_le [of "ParentContainerAI p" "node u"] assms by simp
  then show ?thesis
    using ClickRemove assms by (simp add: removeHandler_def containers_not_status)
next
  case (Submit p oldCode extractedCode userInput topSimilarities)
  have "length (filter is_container (remove1 (ParentContainerAI p) (node u))) \<le> 1"
    using containers_remove1_le [of "ParentContainerAI p" "node u"] assms by simp
  then show ?thesis
    using Submit assms by (simp add: handleSubmit_def Let_def split: sum.splits)
qed

lemma run_containers:
  "length (filter is_container (node u)) \<le> 1 \<Longrightarrow>
   length (filter is_container (node (foldl (act ptv gp) u actions))) \<le> 1"
proof (induction actions arbitrary: u)
  case Nil
  then show ?case by simp
next
  case (Cons a actions)
  from Cons.prems have "length (filter is_container (node (act ptv gp u a))) \<le> 1"
    by (rule act_containers)
  then show ?case
    using Cons.IH by simp
qed

lemma sessions_le: "length (sessions u) \<le> length (filter is_container (node u))"
proof -
  have "sessions u = filter (\<lambda>e. case e of ParentContainerAI p \<Rightarrow> p \<in> fst ` set (streams u)
      | StatusP n \<Rightarrow> False) (filter is_container (node u))"
    unfolding sessions_def filter_filter
    by (rule filter_cong) (auto split: elem.splits)
  then show ?thesis
    by (metis length_filter_le)
qed

section \<open>The claims\<close>

text \<open>
  Claim C1. A session that is \<open>Cancelled\<close> is left as it is by every signal, so a chunk
  delivered to it is neither appended to the proposed code nor shown to the diff surface.
  A cancellation at any point of the stream, also with chunks of the model still to be
  delivered, freezes the proposed code and the notifications at what they were at that
  point.
\<close>

theorem C1_cancelled_discards_chunks:
  "(status s = Cancelled \<longrightarrow> deliver s signals = s) \<and>
   proposedCode (deliver s (before @ Cancel # signals)) = proposedCode (deliver s before) \<and>
   notified (deliver s (before @ Cancel # signals)) = notified (deliver s before) \<and>
   status (deliver s (before @ Cancel # signals)) \<noteq> Active"
proof (intro conjI impI)
  assume "status s = Cancelled"
  then show "deliver s signals = s" by (simp add: inactive_fixed)
next
  have eq: "deliver s (before @ Cancel # signals) = apply_signal (deliver s before) Cancel"
    by (simp add: deliver_append deliver_Cancel)
  show "proposedCode (deliver s (before @ Cancel # signals)) = proposedCode (deliver s before)"
    by (simp add: eq)
  show "notified (deliver s (before @ Cancel # signals)) = notified (deliver s before)"
    by (simp add: eq)
  show "status (deliver s (before @ Cancel # signals)) \<noteq> Active"
    by (simp add: eq)
qed

theorem C1_cancelled_discards_chunks_witness:
  "status \<lparr>originalCode = ''x'', proposedCode = ''y = '', status = Cancelled, notified = [''y = '']\<rparr>
     = Cancelled \<and>
   deliver \<lparr>originalCode = ''x'', proposedCode = ''y = '', status = Cancelled, notified = [''y = '']\<rparr>
     [Chunk ''1''] =
   \<lparr>originalCode = ''x'', proposedCode = ''y = '', status = Cancelled, notified = [''y = '']\<rparr> \<and>
   proposedCode (deliver \<lparr>originalCode = ''x'', proposedCode = [], status = Active, notified = []\<rparr>
     ([Chunk ''y = ''] @ Cancel # [Chunk ''1''])) = ''y = ''"
  using C1_cancelled_discards_chunks
      [of "\<lparr>originalCode = ''x'', proposedCode = ''y = '', status = Cancelled, notified = [''y = '']\<rparr>"
        "[Chunk ''1'']"]
  by (simp add: deliver_def)

text \<open>
  Claim C2 as stated fails when the second interaction on the cell is the fix-error flow:
  the command opens a container, the submit starts its stream, and \<open>handleFixError\<close>
  then appends a second container and starts a second stream while the first is
  attached.
\<close>

theorem C2_two_sessions_counterexample:
  "sessions (handleFixError sample_prompt ''NameError'' (Inr [])
      (foldl (act id sample_prompt)
        \<lparr>node = [], editorFocus = True, code = ''x = 1'', outputs = [''NameError''],
          console = [], streams = [], created = 0\<rparr>
        [Command, Submit 1 ''x = 1'' [] ''plot'' (Inr [])]))
     = [ParentContainerAI 1, ParentContainerAI 3]"
  by (simp add: sample_prompt_def execute_def handleSubmit_def handleFixError_def sessions_def)

text \<open>
  Claim C2, as amended. Under the actions of the replace-code interaction (the command,
  the Remove button, a submit), a cell that starts with at most one container never has
  more than one, hence at most one session. Running the command while a container is
  attached removes it together with the status paragraphs and creates nothing and starts
  no stream; the command leaves a container in the cell only when there was none before.
\<close>

theorem C2_one_container_under_command:
  assumes "length (filter is_container (node u0)) \<le> 1"
    and "u = foldl (act processTaggedVariables generatePrompt) u0 actions"
  shows "length (filter is_container (node u)) \<le> 1 \<and>
         length (sessions u) \<le> 1 \<and>
         (filter is_container (node u) \<noteq> [] \<longrightarrow>
            filter is_container (node (execute u)) = [] \<and>
            filter is_status (node (execute u)) = [] \<and>
            sessions (execute u) = [] \<and>
            streams (execute u) = streams u \<and>
            created (execute u) = created u) \<and>
         (filter is_container (node (execute u)) \<noteq> [] \<longrightarrow> filter is_container (node u) = [])"
proof -
  have one: "length (filter is_container (node u)) \<le> 1"
    unfolding assms(2) using assms(1) by (rule run_containers)
  have toggle: "filter is_container (node (execute u)) = []"
    if "filter is_container (node u) \<noteq> []"
  proof -
    have "length (filter is_container (node (execute u))) = 0"
      using execute_toggle(1) [OF that] one by linarith
    then show ?thesis by simp
  qed
  have "sessions (execute u) = []" if "filter is_container (node u) \<noteq> []"
    using sessions_le [of "execute u"] toggle [OF that] by simp
  then show ?thesis
    using one toggle sessions_le [of u] execute_toggle(2,3,4) [of u] by auto
qed

theorem C2_one_container_under_command_witness:
  "length (filter is_container (node \<lparr>node = [], editorFocus = True, code = ''x = 1'',
      outputs = [], console = [], streams = [], created = 0\<rparr>)) \<le> 1 \<and>
   sessions (foldl (act id sample_prompt)
      \<lparr>node = [], editorFocus = True, code = ''x = 1'', outputs = [], console = [],
        streams = [], created = 0\<rparr>
      [Command, Submit 1 ''x = 1'' [] ''plot'' (Inr [])]) = [ParentContainerAI 1] \<and>
   node (execute (foldl (act id sample_prompt)
      \<lparr>node = [], editorFocus = True, code = ''x = 1'', outputs = [], console = [],
        streams = [], created = 0\<rparr>
      [Command, Submit 1 ''x = 1'' [] ''plot'' (Inr [])])) = []"
  using C2_one_container_under_command [of
      "\<lparr>node = [], editorFocus = True, code = ''x = 1'', outputs = [], console = [],
        streams = [], created = 0\<rparr>" _ id sample_prompt
      "[Command, Submit 1 ''x = 1'' [] ''plot'' (Inr [])]", OF _ refl]
  by (simp add: sample_prompt_def execute_def handleSubmit_def sessions_def)




text \<open>
  Claim C4 as stated fails when the provider fails in the first refresh and answers in
  the second: nothing changed in the cell, the first refresh saves nothing (both sets of
  hashes are empty) and the second saves the entry it computed.
\<close>

theorem C4_second_refresh_counterexample:
  "map saved (ended
     (refresh_alone sample_hash provider_up id [\<lparr>id_cell = ''a'', source_cell = text_x\<rparr>] ''one''
       (refresh_alone sample_hash provider_down id [\<lparr>id_cell = ''a'', source_cell = text_x\<rparr>]
          ''one''
          \<lparr>memory = None, files = no_files(''one'' \<mapsto> []), running = [], ended = []\<rparr>)))
   = [None,
      Some (''one'',
        [\<lparr>id_emb = ''a'', source_emb = text_x, hash_emb = ''hx'', embedding = [1]\<rparr>])]"
  by (simp add: samples refresh_alone_def settle_def getEmbeddings_def createEmbeddings_def cell_task_def
      isSetsEqual_def Let_def )

text \<open>
  Claim C4, as amended. A round alone is followed by a second one on the same cells,
  which reads what the first left in the file. When the cells have distinct ids and the
  provider fails in the second round on the same cell sources as in the first, the
  second round saves nothing and leaves the files as they are. A call saves exactly when
  the set of hashes of the new array differs from the set of hashes of the variable at
  line 412 (in a round alone, the array it read), hence only when the multisets of
  hashes differ.
\<close>

theorem C4_second_refresh_no_write:
  assumes perm: "\<And>xs. mset (completion xs) = mset xs"
    and perm': "\<And>xs. mset (completion' xs) = mset xs"
    and dist: "distinct (map id_cell cells)"
    and st: "files st path = Some embeddingsJSON"
    and same: "\<forall>c\<in>set cells. isl (openaiEmbeddings' (source_cell c)) =
                 isl (openaiEmbeddings (source_cell c))"
    and first: "st1 = refresh_alone calculateHash openaiEmbeddings completion cells path st"
    and second: "st2 = refresh_alone calculateHash openaiEmbeddings' completion' cells path st1"
    and r2: "r2 = createEmbeddings calculateHash openaiEmbeddings' completion'
                    (\<lambda>i. the (files st1 path)) (the (files st1 path)) (the (files st1 path))
                    cells path"
    and r: "r = createEmbeddings calculateHash openaiEmbeddings completion seen final
                  embeddingsJSON cells path"
  shows "ended st2 = ended st1 @ [r2] \<and> saved r2 = None \<and> files st2 = files st1 \<and>
         (saved r \<noteq> None \<longleftrightarrow>
            set (map hash_emb final) \<noteq> set (map hash_emb (newEmbeddingsArray r))) \<and>
         (saved r \<noteq> None \<longrightarrow>
            mset (map hash_emb final) \<noteq> mset (map hash_emb (newEmbeddingsArray r)))"
proof -
  let ?H = calculateHash and ?es = embeddingsJSON
  let ?r1 = "createEmbeddings ?H openaiEmbeddings completion (\<lambda>i. ?es) ?es ?es cells path"
  let ?new = "newEmbeddingsArray ?r1"
  let ?P = "the (files st1 path)"
  let ?kept = "\<lambda>c. fresh ?H ?es c \<or> \<not> isl (openaiEmbeddings (source_cell c))"
  have P: "?P = (if saved ?r1 = None then ?es else ?new)" and f1: "files st1 path = Some ?P"
    unfolding first by (simp_all add: refresh_alone_eq(3) [OF st refl] st)
  have hashes_P: "set (map hash_emb ?new) = set (map hash_emb ?P)"
    using saved_iff [of ?H openaiEmbeddings completion ?es ?es cells path]
    by (auto simp: P)
  have new: "set (map hash_emb ?new) =
      (\<lambda>c. ?H (source_cell c)) ` {c \<in> set cells. nonempty c \<and> ?kept c}"
    by (rule hashes_new [OF perm])
  have kept: "fresh ?H ?P c \<or> \<not> isl (openaiEmbeddings' (source_cell c)) \<longleftrightarrow> ?kept c"
    if c: "c \<in> set cells" "nonempty c" for c
  proof (cases "saved ?r1 = None")
    case True
    then show ?thesis using same c(1) by (simp add: P)
  next
    case False
    then show ?thesis
      using same c(1) fresh_in_new [OF perm dist c, of ?H openaiEmbeddings ?es ?es path]
      by (auto simp: P)
  qed
  have "set (map hash_emb (newEmbeddingsArray r2)) =
        (\<lambda>c. ?H (source_cell c)) `
          {c \<in> set cells. nonempty c \<and> (fresh ?H ?P c \<or> \<not> isl (openaiEmbeddings' (source_cell c)))}"
    unfolding r2 by (rule hashes_new [OF perm'])
  also have "{c \<in> set cells. nonempty c \<and> (fresh ?H ?P c \<or> \<not> isl (openaiEmbeddings' (source_cell c)))} =
        {c \<in> set cells. nonempty c \<and> ?kept c}"
    using kept by blast
  also have "(\<lambda>c. ?H (source_cell c)) ` {c \<in> set cells. nonempty c \<and> ?kept c} = set (map hash_emb ?new)"
    by (rule new [symmetric])
  also have "set (map hash_emb ?new) = set (map hash_emb ?P)"
    by (rule hashes_P)
  finally have "set (map hash_emb ?P) = set (map hash_emb (newEmbeddingsArray r2))"
    by (rule sym)
  then have none: "saved r2 = None"
    unfolding r2 using saved_iff [of ?H openaiEmbeddings' completion' ?P ?P cells path] by blast
  have ended: "ended st2 = ended st1 @ [r2]"
    unfolding second by (rule refresh_alone_eq(2) [OF f1 r2])
  have files: "files st2 = files st1"
    unfolding second using refresh_alone_eq(3) [OF f1 r2] none by simp
  have iff: "saved r \<noteq> None \<longleftrightarrow>
      set (map hash_emb final) \<noteq> set (map hash_emb (newEmbeddingsArray r))"
    unfolding r by (rule saved_general)
  then have "saved r \<noteq> None \<longrightarrow>
      mset (map hash_emb final) \<noteq> mset (map hash_emb (newEmbeddingsArray r))"
    using mset_eq_setD by blast
  with ended none files iff show ?thesis by blast
qed

theorem C4_second_refresh_no_write_witness:
  "map saved (ended
     (refresh_alone sample_hash provider_flaky id
        [\<lparr>id_cell = ''a'', source_cell = text_x\<rparr>, \<lparr>id_cell = ''b'', source_cell = text_y\<rparr>] ''one''
       (refresh_alone sample_hash provider_flaky rev
          [\<lparr>id_cell = ''a'', source_cell = text_x\<rparr>, \<lparr>id_cell = ''b'', source_cell = text_y\<rparr>] ''one''
          \<lparr>memory = None,
            files = no_files(''one'' \<mapsto>
              [\<lparr>id_emb = ''b'', source_emb = text_z, hash_emb = ''hz'', embedding = [0]\<rparr>]),
            running = [], ended = []\<rparr>)))
   = [Some (''one'', [\<lparr>id_emb = ''a'', source_emb = text_x, hash_emb = ''hx'', embedding = [1]\<rparr>]),
      None]"
  using C4_second_refresh_no_write [where completion = rev and completion' = id
      and cells = "[\<lparr>id_cell = ''a'', source_cell = text_x\<rparr>, \<lparr>id_cell = ''b'', source_cell = text_y\<rparr>]"
      and st = "\<lparr>memory = None,
            files = no_files(''one'' \<mapsto>
              [\<lparr>id_emb = ''b'', source_emb = text_z, hash_emb = ''hz'', embedding = [0]\<rparr>]),
            running = [], ended = []\<rparr>"
      and path = "''one''"
      and embeddingsJSON = "[\<lparr>id_emb = ''b'', source_emb = text_z, hash_emb = ''hz'', embedding = [0]\<rparr>]"
      and openaiEmbeddings = provider_flaky and openaiEmbeddings' = provider_flaky
      and calculateHash = sample_hash and seen = sees_empty and final = "[]",
      OF _ _ _ _ _ refl refl refl refl]
  by (simp add: samples refresh_alone_def settle_def getEmbeddings_def createEmbeddings_def cell_task_def
      isSetsEqual_def Let_def )




text \<open>
  Claim C6 as stated fails for the store after the refresh. The file holds the entries
  of a and b, both with the hash of the same text, and b is no longer among the cells.
  The round builds the array with a alone, finds the two sets of hashes equal and saves
  nothing: the file and the variable keep the entry of b.
\<close>

theorem C6_shared_hash_counterexample:
  "files (refresh_alone sample_hash provider_up id [\<lparr>id_cell = ''a'', source_cell = text_x\<rparr>]
            ''one''
            \<lparr>memory = None,
              files = no_files(''one'' \<mapsto>
                  [\<lparr>id_emb = ''a'', source_emb = text_x, hash_emb = ''hx'', embedding = [0]\<rparr>,
                   \<lparr>id_emb = ''b'', source_emb = text_x, hash_emb = ''hx'', embedding = [0]\<rparr>]),
              running = [], ended = []\<rparr>) ''one''
   = Some [\<lparr>id_emb = ''a'', source_emb = text_x, hash_emb = ''hx'', embedding = [0]\<rparr>,
           \<lparr>id_emb = ''b'', source_emb = text_x, hash_emb = ''hx'', embedding = [0]\<rparr>] \<and>
   memory (refresh_alone sample_hash provider_up id [\<lparr>id_cell = ''a'', source_cell = text_x\<rparr>]
            ''one''
            \<lparr>memory = None,
              files = no_files(''one'' \<mapsto>
                  [\<lparr>id_emb = ''a'', source_emb = text_x, hash_emb = ''hx'', embedding = [0]\<rparr>,
                   \<lparr>id_emb = ''b'', source_emb = text_x, hash_emb = ''hx'', embedding = [0]\<rparr>]),
              running = [], ended = []\<rparr>)
   = Some [\<lparr>id_emb = ''a'', source_emb = text_x, hash_emb = ''hx'', embedding = [0]\<rparr>,
           \<lparr>id_emb = ''b'', source_emb = text_x, hash_emb = ''hx'', embedding = [0]\<rparr>]"
  by (simp add: samples refresh_alone_def settle_def getEmbeddings_def createEmbeddings_def cell_task_def
      isSetsEqual_def Let_def )

text \<open>
  Claim C6, as amended. In a round alone, a cell id that is absent from the cell list has
  no entry in the array that the call builds, while the entries that still have the hash
  of their cell are kept in it. The call ends with that array as its result; the file
  holds it afterwards exactly when its set of hashes differs from that of the array read,
  in particular when the removed entry has a hash that no entry of the new array has, and
  then the file has no entry with that id. The variable holds the array that was read.
\<close>

theorem C6_removed_cell_dropped:
  assumes perm: "\<And>xs. mset (completion xs) = mset xs"
    and st: "files st path = Some embeddingsJSON"
    and gone: "cid \<notin> id_cell ` set cells"
    and r: "r = createEmbeddings calculateHash openaiEmbeddings completion
                  (\<lambda>i. embeddingsJSON) embeddingsJSON embeddingsJSON cells path"
    and st1: "st1 = refresh_alone calculateHash openaiEmbeddings completion cells path st"
  shows "cid \<notin> id_emb ` set (newEmbeddingsArray r) \<and>
         (\<forall>c\<in>set cells. nonempty c \<and> fresh calculateHash embeddingsJSON c \<longrightarrow>
            the (cached embeddingsJSON c) \<in> set (newEmbeddingsArray r)) \<and>
         ended st1 = ended st @ [r] \<and>
         memory st1 = Some embeddingsJSON \<and>
         files st1 path =
           Some (if set (map hash_emb embeddingsJSON) = set (map hash_emb (newEmbeddingsArray r))
                 then embeddingsJSON else newEmbeddingsArray r) \<and>
         (\<forall>e\<in>set embeddingsJSON.
            id_emb e = cid \<and> hash_emb e \<notin> hash_emb ` set (newEmbeddingsArray r) \<longrightarrow>
            files st1 path = Some (newEmbeddingsArray r) \<and>
            cid \<notin> id_emb ` set (the (files st1 path)))"
proof -
  have absent: "cid \<notin> id_emb ` set (newEmbeddingsArray r)"
    unfolding r using gone cell_task_pushed_id
    by (fastforce simp: set_newEmbeddingsArray [OF perm])
  have kept: "the (cached embeddingsJSON c) \<in> set (newEmbeddingsArray r)"
    if "c \<in> set cells" "nonempty c \<and> fresh calculateHash embeddingsJSON c" for c
    unfolding r using carried_in_new [OF perm that(1)] that(2) by blast
  have ended: "ended st1 = ended st @ [r]" and mem: "memory st1 = Some embeddingsJSON"
    unfolding st1 by (rule refresh_alone_eq [OF st r])+
  have sv: "saved r = None \<longleftrightarrow>
      set (map hash_emb embeddingsJSON) = set (map hash_emb (newEmbeddingsArray r))"
    unfolding r using saved_iff [of calculateHash openaiEmbeddings completion embeddingsJSON
        embeddingsJSON cells path] by blast
  have fp: "files st1 path =
      Some (if set (map hash_emb embeddingsJSON) = set (map hash_emb (newEmbeddingsArray r))
            then embeddingsJSON else newEmbeddingsArray r)"
    unfolding st1 using sv by (simp add: refresh_alone_eq(3) [OF st r] st)
  have dropped: "files st1 path = Some (newEmbeddingsArray r) \<and>
      cid \<notin> id_emb ` set (the (files st1 path))"
    if "e \<in> set embeddingsJSON" "id_emb e = cid \<and> hash_emb e \<notin> hash_emb ` set (newEmbeddingsArray r)"
    for e
  proof -
    have "hash_emb e \<in> set (map hash_emb embeddingsJSON)" using that(1) by simp
    moreover have "hash_emb e \<notin> set (map hash_emb (newEmbeddingsArray r))" using that(2) by simp
    ultimately have "set (map hash_emb embeddingsJSON) \<noteq> set (map hash_emb (newEmbeddingsArray r))"
      by metis
    then show ?thesis using fp absent by simp
  qed
  show ?thesis
    using absent kept ended mem fp dropped by blast
qed

theorem C6_removed_cell_dropped_witness:
  "files (refresh_alone sample_hash provider_up rev [\<lparr>id_cell = ''a'', source_cell = text_x\<rparr>]
            ''one''
            \<lparr>memory = None,
              files = no_files(''one'' \<mapsto>
                  [\<lparr>id_emb = ''a'', source_emb = text_x, hash_emb = ''hx'', embedding = [0]\<rparr>,
                   \<lparr>id_emb = ''b'', source_emb = text_y, hash_emb = ''hy'', embedding = [2]\<rparr>]),
              running = [], ended = []\<rparr>) ''one''
   = Some [\<lparr>id_emb = ''a'', source_emb = text_x, hash_emb = ''hx'', embedding = [0]\<rparr>] \<and>
   memory (refresh_alone sample_hash provider_up rev [\<lparr>id_cell = ''a'', source_cell = text_x\<rparr>]
            ''one''
            \<lparr>memory = None,
              files = no_files(''one'' \<mapsto>
                  [\<lparr>id_emb = ''a'', source_emb = text_x, hash_emb = ''hx'', embedding = [0]\<rparr>,
                   \<lparr>id_emb = ''b'', source_emb = text_y, hash_emb = ''hy'', embedding = [2]\<rparr>]),
              running = [], ended = []\<rparr>)
   = Some [\<lparr>id_emb = ''a'', source_emb = text_x, hash_emb = ''hx'', embedding = [0]\<rparr>,
           \<lparr>id_emb = ''b'', source_emb = text_y, hash_emb = ''hy'', embedding = [2]\<rparr>]"
  using C6_removed_cell_dropped [where completion = rev
      and cells = "[\<lparr>id_cell = ''a'', source_cell = text_x\<rparr>]"
      and st = "\<lparr>memory = None,
              files = no_files(''one'' \<mapsto>
                  [\<lparr>id_emb = ''a'', source_emb = text_x, hash_emb = ''hx'', embedding = [0]\<rparr>,
                   \<lparr>id_emb = ''b'', source_emb = text_y, hash_emb = ''hy'', embedding = [2]\<rparr>]),
              running = [], ended = []\<rparr>"
      and path = "''one''" and cid = "''b''"
      and embeddingsJSON =
        "[\<lparr>id_emb = ''a'', source_emb = text_x, hash_emb = ''hx'', embedding = [0]\<rparr>,
          \<lparr>id_emb = ''b'', source_emb = text_y, hash_emb = ''hy'', embedding = [2]\<rparr>]"
      and calculateHash = sample_hash and openaiEmbeddings = provider_up,
      OF _ _ _ refl refl]
  by (simp add: samples refresh_alone_def settle_def getEmbeddings_def createEmbeddings_def cell_task_def
      isSetsEqual_def Let_def )

text \<open>
  Claim C7. \<open>topK\<close> returns K results, or all the eligible entries when there are fewer;
  they are in descending order of score; results of equal score are in the order of the
  store, the earliest first; no result has the excluded id; the results are eligible
  entries and every eligible entry left out scores no higher than any result. For the
  store a = [1, 0], b = [0, 1], c = [0.9, 0.1], the query [1, 0] and K = 2 the result is
  a, then c.
\<close>

theorem C7_topK:
  "length (topK queryVector store K excludeId) = min K (length (eligible queryVector store excludeId)) \<and>
   (length (eligible queryVector store excludeId) \<le> K \<longrightarrow>
      mset (topK queryVector store K excludeId) = mset (eligible queryVector store excludeId)) \<and>
   sorted_wrt (\<lambda>a b. score b \<le> score a) (topK queryVector store K excludeId) \<and>
   (\<forall>s. prefix (filter (\<lambda>r. score r = s) (topK queryVector store K excludeId))
               (filter (\<lambda>r. score r = s) (eligible queryVector store excludeId))) \<and>
   (\<forall>r\<in>set (topK queryVector store K excludeId). Some (id_rank r) \<noteq> excludeId) \<and>
   mset (topK queryVector store K excludeId) \<subseteq># mset (eligible queryVector store excludeId) \<and>
   (\<forall>r\<in>set (topK queryVector store K excludeId).
      \<forall>r'\<in>#mset (eligible queryVector store excludeId) - mset (topK queryVector store K excludeId).
        score r' \<le> score r) \<and>
   map id_rank (topK [1, 0]
      [\<lparr>id_emb = ''a'', source_emb = text_x, hash_emb = ''ha'', embedding = [1, 0]\<rparr>,
       \<lparr>id_emb = ''b'', source_emb = text_y, hash_emb = ''hb'', embedding = [0, 1]\<rparr>,
       \<lparr>id_emb = ''c'', source_emb = text_z, hash_emb = ''hc'', embedding = [9 / 10, 1 / 10]\<rparr>]
      2 None) = [''a'', ''c'']"
  by (intro conjI allI ballI impI;
      (rule topK_length topK_sorted topK_stable topK_mset topK_example
       | erule topK_excludes | erule topK_all | (erule topK_highest, assumption)))

theorem C7_topK_witness:
  "map id_rank (topK [1, 0]
      [\<lparr>id_emb = ''a'', source_emb = text_x, hash_emb = ''ha'', embedding = [1, 0]\<rparr>,
       \<lparr>id_emb = ''b'', source_emb = text_y, hash_emb = ''hb'', embedding = [0, 1]\<rparr>,
       \<lparr>id_emb = ''c'', source_emb = text_z, hash_emb = ''hc'', embedding = [1, 0]\<rparr>]
      5 (Some ''b'')) = [''a'', ''c''] \<and>
   ''b'' \<notin> id_rank ` set (topK [1, 0]
      [\<lparr>id_emb = ''a'', source_emb = text_x, hash_emb = ''ha'', embedding = [1, 0]\<rparr>,
       \<lparr>id_emb = ''b'', source_emb = text_y, hash_emb = ''hb'', embedding = [0, 1]\<rparr>,
       \<lparr>id_emb = ''c'', source_emb = text_z, hash_emb = ''hc'', embedding = [1, 0]\<rparr>]
      5 (Some ''b''))"
  using C7_topK [of "[1, 0]"
      "[\<lparr>id_emb = ''a'', source_emb = text_x, hash_emb = ''ha'', embedding = [1, 0]\<rparr>,
        \<lparr>id_emb = ''b'', source_emb = text_y, hash_emb = ''hb'', embedding = [0, 1]\<rparr>,
        \<lparr>id_emb = ''c'', source_emb = text_z, hash_emb = ''hc'', embedding = [1, 0]\<rparr>]"
      5 "Some ''b''"]
  by (simp add: topK_def eligible_def cos_a)

text \<open>
  Claim C8 as stated fails in \<open>handleSubmit\<close>: when the awaited
  \<open>getTopSimilarities\<close> is rejected, no stream is started and the container of the
  interaction is removed from the cell.
\<close>

theorem C8_retrieval_failure_counterexample:
  "streams (handleSubmit id sample_prompt 1 ''x = 1'' [] ''plot''
      (Inl ''unavailable'')
      (execute \<lparr>node = [], editorFocus = True, code = ''x = 1'', outputs = [], console = [],
         streams = [], created = 0\<rparr>)) = [] \<and>
   filter is_container (node (handleSubmit id sample_prompt 1 ''x = 1'' []
      ''plot'' (Inl ''unavailable'')
      (execute \<lparr>node = [], editorFocus = True, code = ''x = 1'', outputs = [], console = [],
         streams = [], created = 0\<rparr>))) = []"
  by (simp add: sample_prompt_def execute_def handleSubmit_def)

text \<open>
  Claim C8, as amended. For a non-empty instruction, a rejected \<open>getTopSimilarities\<close>
  ends the interaction: \<open>handleSubmit\<close> starts no stream and removes its container.
  The prompt is assembled and the stream started only when \<open>getTopSimilarities\<close>
  returns, with the context it returned (possibly empty).
\<close>

theorem C8_retrieval_failure_aborts:
  assumes "userInput \<noteq> []"
  shows "streams (handleSubmit processTaggedVariables generatePrompt p oldCode extractedCode
           userInput (Inl error) u) = streams u \<and>
         node (handleSubmit processTaggedVariables generatePrompt p oldCode extractedCode
           userInput (Inl error) u) = remove1 (ParentContainerAI p) (node u) \<and>
         streams (handleSubmit processTaggedVariables generatePrompt p oldCode extractedCode
           userInput (Inr similar) u) =
           streams u @ [(p, generatePrompt (processTaggedVariables userInput) oldCode similar
              extractedCode None)] \<and>
         node (handleSubmit processTaggedVariables generatePrompt p oldCode extractedCode
           userInput (Inr similar) u) = node u"
  using assms by (simp add: handleSubmit_def Let_def remove1_idem)

theorem C8_retrieval_failure_aborts_witness:
  "''plot'' \<noteq> [] \<and>
   streams (handleSubmit id sample_prompt 1 ''x = 1'' [] ''plot'' (Inr [])
      \<lparr>node = [StatusP 0, ParentContainerAI 1], editorFocus = False, code = ''x = 1'',
        outputs = [], console = [], streams = [], created = 2\<rparr>) = [(1, ''plotx = 1'')] \<and>
   node (handleSubmit id sample_prompt 1 ''x = 1'' [] ''plot''
      (Inl ''unavailable'')
      \<lparr>node = [StatusP 0, ParentContainerAI 1], editorFocus = False, code = ''x = 1'',
        outputs = [], console = [], streams = [], created = 2\<rparr>) = [StatusP 0]"
  using C8_retrieval_failure_aborts [of "''plot''" id sample_prompt 1
      "''x = 1''" "[]" "''unavailable''"
      "\<lparr>node = [StatusP 0, ParentContainerAI 1], editorFocus = False, code = ''x = 1'',
        outputs = [], console = [], streams = [], created = 2\<rparr>" "[]"]
  by (simp add: sample_prompt_def)

text \<open>
  Claim C9. In the fix-error flow the outputs of the cell (which hold the error) are
  cleared exactly when the promise of \<open>openAiStream\<close> is fulfilled. When it is
  rejected the outputs stay, the error is reported on the console, and the cell node
  with the container of the diff editor and the streams are left as they are.
\<close>

theorem C9_outputs_cleared_on_success_only:
  "(outputs u \<noteq> [] \<longrightarrow> (outputs (openAiStream_settled outcome u) = [] \<longleftrightarrow> outcome = Fulfilled)) \<and>
   outputs (openAiStream_settled Fulfilled u) = [] \<and>
   outputs (openAiStream_settled (Rejected error) u) = outputs u \<and>
   console (openAiStream_settled (Rejected error) u) = console u @ [error] \<and>
   node (openAiStream_settled (Rejected error) u) = node u \<and>
   streams (openAiStream_settled (Rejected error) u) = streams u"
  by (cases outcome) simp_all

theorem C9_outputs_cleared_on_success_only_witness:
  "outputs \<lparr>node = [StatusP 0, ParentContainerAI 1], editorFocus = False, code = ''x = 1'',
      outputs = [''NameError''], console = [], streams = [(1, ''fix'')], created = 2\<rparr> \<noteq> [] \<and>
   outputs (openAiStream_settled (Rejected ''timeout'')
     \<lparr>node = [StatusP 0, ParentContainerAI 1], editorFocus = False, code = ''x = 1'',
      outputs = [''NameError''], console = [], streams = [(1, ''fix'')], created = 2\<rparr>)
     = [''NameError''] \<and>
   outputs (openAiStream_settled Fulfilled
     \<lparr>node = [StatusP 0, ParentContainerAI 1], editorFocus = False, code = ''x = 1'',
      outputs = [''NameError''], console = [], streams = [(1, ''fix'')], created = 2\<rparr>) = []"
  using C9_outputs_cleared_on_success_only [of
      "\<lparr>node = [StatusP 0, ParentContainerAI 1], editorFocus = False, code = ''x = 1'',
        outputs = [''NameError''], console = [], streams = [(1, ''fix'')], created = 2\<rparr>"
      "Rejected ''timeout''" "''timeout''"]
  by simp

text \<open>
  Claim C10 as stated fails for a refresh that another call overtakes. The call of
  notebook one is given the empty array; while it runs, the round of notebook two assigns
  the array of its own file. When the first call ends, the variable is neither the array
  that call was given nor the array it built, but the array of notebook two.
\<close>

theorem C10_overlap_counterexample:
  "memory
     (settle sample_hash provider_up id sees_empty 0
       (getEmbeddings [] ''two''
         (getEmbeddings [\<lparr>id_cell = ''a'', source_cell = text_x\<rparr>] ''one''
            \<lparr>memory = None,
              files = no_files(''one'' \<mapsto> [],
                ''two'' \<mapsto>
                  [\<lparr>id_emb = ''c'', source_emb = text_y, hash_emb = ''hy'', embedding = [2]\<rparr>]),
              running = [], ended = []\<rparr>)))
   = Some [\<lparr>id_emb = ''c'', source_emb = text_y, hash_emb = ''hy'', embedding = [2]\<rparr>] \<and>
   map input (running
         (getEmbeddings [\<lparr>id_cell = ''a'', source_cell = text_x\<rparr>] ''one''
            \<lparr>memory = None,
              files = no_files(''one'' \<mapsto> [],
                ''two'' \<mapsto>
                  [\<lparr>id_emb = ''c'', source_emb = text_y, hash_emb = ''hy'', embedding = [2]\<rparr>]),
              running = [], ended = []\<rparr>)) = [[]] \<and>
   map newEmbeddingsArray (ended
     (settle sample_hash provider_up id sees_empty 0
       (getEmbeddings [] ''two''
         (getEmbeddings [\<lparr>id_cell = ''a'', source_cell = text_x\<rparr>] ''one''
            \<lparr>memory = None,
              files = no_files(''one'' \<mapsto> [],
                ''two'' \<mapsto>
                  [\<lparr>id_emb = ''c'', source_emb = text_y, hash_emb = ''hy'', embedding = [2]\<rparr>]),
              running = [], ended = []\<rparr>))))
   = [[\<lparr>id_emb = ''a'', source_emb = text_x, hash_emb = ''hx'', embedding = [1]\<rparr>]]"
  by (simp add: samples settle_def getEmbeddings_def createEmbeddings_def cell_task_def isSetsEqual_def
      Let_def )

text \<open>
  Claim C10, as amended. The variable \<open>embeddings\<close> is assigned only when a call
  begins, with the array read from the file; a call that ends does not assign it. So
  the variable is the array given to the call that began last: after a round alone it is
  the array that round read, not the array it built, and the round after it assigns what
  the first left in the file.
\<close>

theorem C10_variable_is_latest_input:
  "memory (settle calculateHash openaiEmbeddings completion seen k st) = memory st \<and>
   (files st path = Some embeddingsJSON \<longrightarrow>
      memory (getEmbeddings cells path st) = Some embeddingsJSON) \<and>
   (files st path = None \<longrightarrow> memory (getEmbeddings cells path st) = memory st) \<and>
   (files st path = Some embeddingsJSON \<longrightarrow>
      memory (refresh_alone calculateHash openaiEmbeddings completion cells path st)
        = Some embeddingsJSON \<and>
      memory (getEmbeddings cells' path
                (refresh_alone calculateHash openaiEmbeddings completion cells path st))
        = files (refresh_alone calculateHash openaiEmbeddings completion cells path st) path \<and>
      files (refresh_alone calculateHash openaiEmbeddings completion cells path st) path \<noteq> None)"
proof (intro conjI impI)
  show "memory (settle calculateHash openaiEmbeddings completion seen k st) = memory st"
    by (rule memory_settle)
next
  assume "files st path = Some embeddingsJSON"
  then show "memory (getEmbeddings cells path st) = Some embeddingsJSON"
    by (simp add: memory_getEmbeddings)
next
  assume "files st path = None"
  then show "memory (getEmbeddings cells path st) = memory st"
    by (simp add: memory_getEmbeddings)
next
  assume st: "files st path = Some embeddingsJSON"
  show "memory (refresh_alone calculateHash openaiEmbeddings completion cells path st)
        = Some embeddingsJSON"
    by (rule refresh_alone_eq(1) [OF st refl])
  have f: "files (refresh_alone calculateHash openaiEmbeddings completion cells path st) path \<noteq> None"
    by (simp add: refresh_alone_eq(3) [OF st refl] st)
  then show "files (refresh_alone calculateHash openaiEmbeddings completion cells path st) path \<noteq> None" .
  from f show "memory (getEmbeddings cells' path
                (refresh_alone calculateHash openaiEmbeddings completion cells path st))
        = files (refresh_alone calculateHash openaiEmbeddings completion cells path st) path"
    by (auto simp: memory_getEmbeddings)
qed

theorem C10_variable_is_latest_input_witness:
  "memory (refresh_alone sample_hash provider_up id [\<lparr>id_cell = ''a'', source_cell = text_x\<rparr>]
            ''one''
            \<lparr>memory = None, files = no_files(''one'' \<mapsto> []), running = [], ended = []\<rparr>)
   = Some [] \<and>
   memory (getEmbeddings [\<lparr>id_cell = ''a'', source_cell = text_x\<rparr>] ''one''
     (refresh_alone sample_hash provider_up id [\<lparr>id_cell = ''a'', source_cell = text_x\<rparr>]
            ''one''
            \<lparr>memory = None, files = no_files(''one'' \<mapsto> []), running = [], ended = []\<rparr>))
   = Some [\<lparr>id_emb = ''a'', source_emb = text_x, hash_emb = ''hx'', embedding = [1]\<rparr>]"
  using C10_variable_is_latest_input [where calculateHash = sample_hash
      and openaiEmbeddings = provider_up and completion = id
      and cells = "[\<lparr>id_cell = ''a'', source_cell = text_x\<rparr>]"
      and cells' = "[\<lparr>id_cell = ''a'', source_cell = text_x\<rparr>]"
      and path = "''one''" and embeddingsJSON = "[]"
      and st = "\<lparr>memory = None, files = no_files(''one'' \<mapsto> []), running = [], ended = []\<rparr>"
      and seen = sees_empty and k = 0]
  by (simp add: samples refresh_alone_def settle_def getEmbeddings_def createEmbeddings_def cell_task_def
      isSetsEqual_def Let_def )

end
